theory Spec2Isabelle
  imports Main "HOL-Library.Multiset"
begin

section \<open>Python values, errors and observable events\<close>

text \<open>
  The program handles the objects that \<^verbatim>\<open>response.json()\<close> returns: \<^verbatim>\<open>None\<close>, booleans,
  integers, strings, lists and dictionaries with string keys. A dictionary is kept as the
  list of its items in insertion order; a dictionary parsed from JSON has distinct keys,
  and \<open>map_of\<close> is its lookup. JSON numbers with a fraction are not part of the model.
\<close>

datatype pyval =
    PNone
  | PBool bool
  | PInt int
  | PStr string
  | PList "pyval list"
  | PDict "(string \<times> pyval) list"

datatype py_error =
    KeyError string
  | TypeError
  | AttributeError
  | JSONDecodeError

datatype level = DEBUG | INFO | WARNING | ERROR

text \<open>
  Everything the program does to the outside world is one event of a trace: a call of the
  \<^verbatim>\<open>logging\<close> module (with its level; \<^verbatim>\<open>main\<close> configures level INFO, so the DEBUG calls
  are made but not shown), an HTTP GET of a URL, a \<^verbatim>\<open>print\<close>, and the call
  \<^verbatim>\<open>pd.DataFrame(data).to_csv(filename, index=False)\<close>, recorded with the file name and
  the list \<^verbatim>\<open>data\<close> of row dictionaries.
\<close>

datatype event =
    Log level string
  | HttpGet string
  | Print string
  | ToCsv string "(string \<times> pyval) list list"

text \<open>
  What \<^verbatim>\<open>requests.get\<close> returns: the status code, the body text, and the value of
  \<^verbatim>\<open>response.json()\<close>, which is \<open>None\<close> when the body is not JSON and the call raises.
\<close>

record response =
  status_code :: nat
  text_body :: string
  json_body :: "pyval option"

subsection \<open>The Python operations the program applies to these values\<close>

definition is_substring :: "string \<Rightarrow> string \<Rightarrow> bool" where
  "is_substring k s = list_ex (\<lambda>i. take (length k) (drop i s) = k) [0..<Suc (length s)]"

text \<open>\<^verbatim>\<open>k in v\<close> for a string \<open>k\<close>.\<close>

definition py_contains :: "string \<Rightarrow> pyval \<Rightarrow> py_error + bool" where
  "py_contains k v =
     (case v of
        PDict kvs \<Rightarrow> Inr (k \<in> set (map fst kvs))
      | PList xs \<Rightarrow> Inr (PStr k \<in> set xs)
      | PStr s \<Rightarrow> Inr (is_substring k s)
      | _ \<Rightarrow> Inl TypeError)"

text \<open>\<^verbatim>\<open>v[k]\<close> for a string \<open>k\<close>: only a dictionary can be indexed by a string.\<close>

definition py_getitem :: "pyval \<Rightarrow> string \<Rightarrow> py_error + pyval" where
  "py_getitem v k =
     (case v of
        PDict kvs \<Rightarrow> (case map_of kvs k of None \<Rightarrow> Inl (KeyError k) | Some x \<Rightarrow> Inr x)
      | _ \<Rightarrow> Inl TypeError)"

text \<open>\<^verbatim>\<open>v.get(k, d)\<close>: only a dictionary has the method.\<close>

definition py_get :: "pyval \<Rightarrow> string \<Rightarrow> pyval \<Rightarrow> py_error + pyval" where
  "py_get v k d =
     (case v of
        PDict kvs \<Rightarrow> Inr (case map_of kvs k of None \<Rightarrow> d | Some x \<Rightarrow> x)
      | _ \<Rightarrow> Inl AttributeError)"

text \<open>Iteration (\<^verbatim>\<open>for x in v\<close>, \<^verbatim>\<open>list.extend(v)\<close>): a dictionary yields its keys, a
  string its characters.\<close>

definition py_iter :: "pyval \<Rightarrow> py_error + pyval list" where
  "py_iter v =
     (case v of
        PList xs \<Rightarrow> Inr xs
      | PDict kvs \<Rightarrow> Inr (map (\<lambda>kv. PStr (fst kv)) kvs)
      | PStr s \<Rightarrow> Inr (map (\<lambda>c. PStr [c]) s)
      | _ \<Rightarrow> Inl TypeError)"

text \<open>Truth value of an object, as \<^verbatim>\<open>not v\<close> and \<^verbatim>\<open>while\<close> test it.\<close>

definition py_truthy :: "pyval \<Rightarrow> bool" where
  "py_truthy v =
     (case v of
        PNone \<Rightarrow> False
      | PBool b \<Rightarrow> b
      | PInt i \<Rightarrow> i \<noteq> 0
      | PStr s \<Rightarrow> s \<noteq> []
      | PList xs \<Rightarrow> xs \<noteq> []
      | PDict kvs \<Rightarrow> kvs \<noteq> [])"

fun show_nat :: "nat \<Rightarrow> string" where
  "show_nat n =
     (if n < 10 then [''0123456789'' ! n]
      else show_nat (n div 10) @ [''0123456789'' ! (n mod 10)])"

declare show_nat.simps [simp del]

definition show_int :: "int \<Rightarrow> string" where
  "show_int i = (if i < 0 then CHR ''-'' # show_nat (nat (- i)) else show_nat (nat i))"

text \<open>
  \<^verbatim>\<open>str(v)\<close>, as an f-string applies it. The text of a list or of a dictionary (Python's
  \<^verbatim>\<open>repr\<close> of every element, with its quoting rules) is not computed here: \<open>fmt\<close> stands
  for it, and every function below takes it as a parameter.
\<close>

definition py_str :: "(pyval \<Rightarrow> string) \<Rightarrow> pyval \<Rightarrow> string" where
  "py_str fmt v =
     (case v of
        PStr s \<Rightarrow> s
      | PNone \<Rightarrow> ''None''
      | PBool b \<Rightarrow> (if b then ''True'' else ''False'')
      | PInt i \<Rightarrow> show_int i
      | _ \<Rightarrow> fmt v)"

fun join_strs :: "string \<Rightarrow> string list \<Rightarrow> string" where
  "join_strs sep [] = []"
| "join_strs sep [x] = x"
| "join_strs sep (x # y # ys) = x @ sep @ join_strs sep (y # ys)"

fun str_items :: "pyval list \<Rightarrow> string list option" where
  "str_items [] = Some []"
| "str_items (PStr s # vs) = map_option ((#) s) (str_items vs)"
| "str_items (_ # vs) = None"

text \<open>\<^verbatim>\<open>sep.join(items)\<close>: every item must be a string.\<close>

definition py_join :: "string \<Rightarrow> pyval list \<Rightarrow> py_error + string" where
  "py_join sep items =
     (case str_items items of None \<Rightarrow> Inl TypeError | Some ss \<Rightarrow> Inr (join_strs sep ss))"

section \<open>Filter Lister: \<^verbatim>\<open>get_jira_filters\<close>\<close>

text \<open>
  The transport is the environment \<open>http_get\<close>, a function from the requested URL to the
  response. The request headers are computed once from the user name and the token and are
  the same for every request of a run, so they are part of the environment. The loop asks
  for each URL at most once (\<open>start_at\<close> only grows), so a function of the URL describes
  any server.
\<close>

definition max_results :: nat where
  "max_results = 50"

definition search_url :: "string \<Rightarrow> string \<Rightarrow> nat \<Rightarrow> string" where
  "search_url baseUrl api_version start_at =
     baseUrl @ ''/rest/api/'' @ api_version @ ''/filter/search?startAt='' @ show_nat start_at
       @ ''&maxResults='' @ show_nat max_results"

text \<open>
  The \<^verbatim>\<open>while not is_last\<close> loop, from the state \<open>(filters, start_at, is_last)\<close> and the
  trace so far. It returns the trace and either the list \<^verbatim>\<open>filters\<close> (after the loop
  ends or a \<^verbatim>\<open>break\<close>) or the exception raised. Nothing bounds the number of pages, so the
  loop is a partial function: \<open>None\<close> is a run that never returns.
\<close>

partial_function (option) pagination_loop ::
  "(string \<Rightarrow> response) \<Rightarrow> (pyval \<Rightarrow> string) \<Rightarrow> string \<Rightarrow> string \<Rightarrow>
     event list \<Rightarrow> pyval list \<Rightarrow> nat \<Rightarrow> pyval \<Rightarrow> (event list \<times> (py_error + pyval list)) option"
where [code]:
  "pagination_loop http_get fmt baseUrl api_version tr filters start_at is_last =
     (if py_truthy is_last then Some (tr, Inr filters)
      else
        let url = search_url baseUrl api_version start_at;
            response = http_get url;
            tr1 = tr @ [Log INFO (''Fetching filters from: '' @ url), HttpGet url,
                        Log DEBUG (''Response status code: '' @ show_nat (status_code response))]
        in
          if status_code response \<noteq> 200 then
            Some (tr1 @ [Log ERROR (''Failed to fetch filters: '' @ text_body response)],
                  Inr filters)
          else
            (case json_body response of
               None \<Rightarrow> Some (tr1, Inl JSONDecodeError)
             | Some data \<Rightarrow>
                 let tr2 = tr1 @ [Log DEBUG (''Response data: '' @ py_str fmt data)] in
                 (case py_contains ''values'' data of
                    Inl e \<Rightarrow> Some (tr2, Inl e)
                  | Inr has_values \<Rightarrow>
                      if \<not> has_values then
                        Some (tr2 @ [Log ERROR (''Unexpected response format: '' @ py_str fmt data)],
                              Inr filters)
                      else
                        (case py_getitem data ''values'' of
                           Inl e \<Rightarrow> Some (tr2, Inl e)
                         | Inr vs \<Rightarrow>
                             (case py_iter vs of
                                Inl e \<Rightarrow> Some (tr2, Inl e)
                              | Inr items \<Rightarrow>
                                  (case py_get data ''isLast'' (PBool True) of
                                     Inl e \<Rightarrow> Some (tr2, Inl e)
                                   | Inr l \<Rightarrow>
                                       pagination_loop http_get fmt baseUrl api_version tr2
                                         (filters @ items) (start_at + max_results) l))))))"

definition get_jira_filters ::
  "(string \<Rightarrow> response) \<Rightarrow> (pyval \<Rightarrow> string) \<Rightarrow> string \<Rightarrow> string \<Rightarrow> string \<Rightarrow> string \<Rightarrow>
     (event list \<times> (py_error + pyval list)) option"
where
  "get_jira_filters http_get fmt userName token baseUrl api_version =
     pagination_loop http_get fmt baseUrl api_version [] [] 0 (PBool False)"

section \<open>Filter Detail Fetcher: \<^verbatim>\<open>fetch_filter_details\<close>\<close>

definition detail_url :: "(pyval \<Rightarrow> string) \<Rightarrow> string \<Rightarrow> string \<Rightarrow> pyval \<Rightarrow> string" where
  "detail_url fmt baseUrl api_version filter_id =
     baseUrl @ ''/rest/api/'' @ api_version @ ''/filter/'' @ py_str fmt filter_id"

text \<open>
  One request. The Python \<^verbatim>\<open>None\<close> that the function returns on a status other than 200 is
  \<open>PNone\<close>, the same object that \<^verbatim>\<open>response.json()\<close> gives for the body \<^verbatim>\<open>null\<close>.
\<close>

definition fetch_filter_details ::
  "(string \<Rightarrow> response) \<Rightarrow> (pyval \<Rightarrow> string) \<Rightarrow> pyval \<Rightarrow> string \<Rightarrow> string \<Rightarrow>
     event list \<times> (py_error + pyval)"
where
  "fetch_filter_details http_get fmt filter_id baseUrl api_version =
     (let url = detail_url fmt baseUrl api_version filter_id;
          response = http_get url;
          tr = [Log DEBUG (''Fetching filter details from: '' @ url), HttpGet url,
                Log DEBUG (''Response status code: '' @ show_nat (status_code response))]
      in
        if status_code response \<noteq> 200 then
          (tr @ [Log ERROR (''Failed to fetch filter details: '' @ text_body response)],
           Inr PNone)
        else
          (case json_body response of
             None \<Rightarrow> (tr, Inl JSONDecodeError)
           | Some filter_data \<Rightarrow>
               (tr @ [Log DEBUG (''Filter details: '' @ py_str fmt filter_data)],
                Inr filter_data)))"

section \<open>Permission Formatter: \<^verbatim>\<open>format_permissions\<close>\<close>

definition bind_err :: "'e + 'a \<Rightarrow> ('a \<Rightarrow> 'e + 'b) \<Rightarrow> 'e + 'b" where
  "bind_err r f = (case r of Inl e \<Rightarrow> Inl e | Inr x \<Rightarrow> f x)"

text \<open>The body of the \<^verbatim>\<open>for perm in permissions\<close> loop: the items it appends, or the
  exception it raises.\<close>

definition format_permission :: "(pyval \<Rightarrow> string) \<Rightarrow> pyval \<Rightarrow> py_error + pyval list" where
  "format_permission fmt perm =
     bind_err (py_get perm ''type'' PNone) (\<lambda>t.
       if t = PStr ''user'' then
         bind_err (py_getitem perm ''user'') (\<lambda>u.
         bind_err (py_getitem u ''displayName'') (\<lambda>n. Inr [n]))
       else if t = PStr ''group'' then
         bind_err (py_getitem perm ''group'') (\<lambda>g.
         bind_err (py_getitem g ''name'') (\<lambda>n. Inr [PStr (''Group: '' @ py_str fmt n)]))
       else if t = PStr ''projectRole'' then
         bind_err (py_getitem perm ''projectRole'') (\<lambda>r.
         bind_err (py_getitem r ''name'') (\<lambda>n. Inr [PStr (''Project Role: '' @ py_str fmt n)]))
       else Inr [])"

fun format_loop :: "(pyval \<Rightarrow> string) \<Rightarrow> pyval list \<Rightarrow> pyval list \<Rightarrow> py_error + pyval list" where
  "format_loop fmt [] formatted_permissions = Inr formatted_permissions"
| "format_loop fmt (perm # perms) formatted_permissions =
     bind_err (format_permission fmt perm) (\<lambda>items.
       format_loop fmt perms (formatted_permissions @ items))"

definition format_permissions :: "(pyval \<Rightarrow> string) \<Rightarrow> pyval \<Rightarrow> py_error + string" where
  "format_permissions fmt permissions =
     bind_err (py_iter permissions) (\<lambda>perms.
     bind_err (format_loop fmt perms []) (\<lambda>formatted_permissions.
       py_join '', '' formatted_permissions))"

section \<open>Report Writer: \<^verbatim>\<open>save_filters_to_csv\<close>\<close>

text \<open>The dictionary \<^verbatim>\<open>filter_info\<close> of one filter, its entries evaluated in the order of
  the source.\<close>

definition filter_row :: "(pyval \<Rightarrow> string) \<Rightarrow> pyval \<Rightarrow> py_error + (string \<times> pyval) list" where
  "filter_row fmt flt =
     bind_err (py_getitem flt ''name'') (\<lambda>name.
     bind_err (py_getitem flt ''owner'') (\<lambda>owner.
     bind_err (py_getitem owner ''displayName'') (\<lambda>owner_name.
     bind_err (py_getitem flt ''sharePermissions'') (\<lambda>sp.
     bind_err (format_permissions fmt sp) (\<lambda>share.
     bind_err (py_getitem flt ''editPermissions'') (\<lambda>ep.
     bind_err (format_permissions fmt ep) (\<lambda>edit.
     bind_err (py_getitem flt ''isWritable'') (\<lambda>writable.
     bind_err (py_get flt ''approximateLastUsed'' PNone) (\<lambda>last_used.
       Inr [(''Filter name'', name),
            (''Owner'', owner_name),
            (''Share Permissions'', PStr share),
            (''Edit Permissions'', PStr edit),
            (''Is Writable'', writable),
            (''Approximate Last Used'', last_used)])))))))))"

fun build_rows ::
  "(pyval \<Rightarrow> string) \<Rightarrow> pyval list \<Rightarrow> (string \<times> pyval) list list \<Rightarrow>
     py_error + (string \<times> pyval) list list"
where
  "build_rows fmt [] data = Inr data"
| "build_rows fmt (flt # flts) data =
     (if flt = PNone then build_rows fmt flts data
      else bind_err (filter_row fmt flt) (\<lambda>filter_info.
             build_rows fmt flts (data @ [filter_info])))"

text \<open>The write itself (\<^verbatim>\<open>to_csv\<close>) is taken to succeed; it is the event \<open>ToCsv\<close>.\<close>

definition save_filters_to_csv ::
  "(pyval \<Rightarrow> string) \<Rightarrow> pyval list \<Rightarrow> string \<Rightarrow> event list \<times> (py_error + unit)"
where
  "save_filters_to_csv fmt filter_details filename =
     (if filter_details = [] then ([Log WARNING ''No filter details to save.''], Inr ())
      else
        (case build_rows fmt filter_details [] of
           Inl e \<Rightarrow> ([], Inl e)
         | Inr data \<Rightarrow>
             ([Log INFO (''Saving data to CSV: '' @ filename), ToCsv filename data], Inr ())))"

text \<open>
  Modelled from the spec: the text of one cell of the written file. The serialiser is the
  pandas library, which is not part of the repository; the spec (4.6) has "optional
  last-used timestamp (absent \<open>\<rightarrow>\<close> empty cell)" and "quoting fields containing
  delimiters/newlines per standard tabular-text conventions". A missing value (\<^verbatim>\<open>None\<close>) is
  written as the empty text; any other value as its string, quoted when it holds a comma,
  a double quote or a line break, a double quote being doubled.
\<close>

definition csv_quote :: "string \<Rightarrow> string" where
  "csv_quote s =
     (if list_ex (\<lambda>c. c \<in> set [CHR '','', CHR 0x22, CHR 0x0A, CHR 0x0D]) s
      then [CHR 0x22] @ concat (map (\<lambda>c. if c = CHR 0x22 then [c, c] else [c]) s) @ [CHR 0x22]
      else s)"

definition csv_cell :: "(pyval \<Rightarrow> string) \<Rightarrow> pyval \<Rightarrow> string" where
  "csv_cell fmt v = (case v of PNone \<Rightarrow> [] | _ \<Rightarrow> csv_quote (py_str fmt v))"

definition csv_record :: "(pyval \<Rightarrow> string) \<Rightarrow> (string \<times> pyval) list \<Rightarrow> (string \<times> string) list" where
  "csv_record fmt row = map (\<lambda>kv. (fst kv, csv_cell fmt (snd kv))) row"

section \<open>Orchestration: \<^verbatim>\<open>main\<close>\<close>

text \<open>The list comprehension that submits one fetch per filter reads \<^verbatim>\<open>filter['id']\<close> of
  each filter in turn: the identifiers read before the first failure, and that failure.\<close>

fun filter_ids :: "pyval list \<Rightarrow> pyval list \<times> py_error option" where
  "filter_ids [] = ([], None)"
| "filter_ids (flt # flts) =
     (case py_getitem flt ''id'' of
        Inl e \<Rightarrow> ([], Some e)
      | Inr i \<Rightarrow> (case filter_ids flts of (ids, err) \<Rightarrow> (i # ids, err)))"

text \<open>The loop over the completed futures: \<^verbatim>\<open>future.result()\<close> raises what the fetch
  raised, and a result that is \<^verbatim>\<open>None\<close> is dropped.\<close>

fun collect_results :: "(py_error + pyval) list \<Rightarrow> pyval list \<Rightarrow> py_error + pyval list" where
  "collect_results [] filter_details = Inr filter_details"
| "collect_results (Inl e # rs) filter_details = Inl e"
| "collect_results (Inr result # rs) filter_details =
     collect_results rs (if result \<noteq> PNone then filter_details @ [result] else filter_details)"

text \<open>
  \<^verbatim>\<open>main\<close> after its prompts: \<open>instance_type\<close>, \<open>baseUrl\<close>, \<open>userName\<close> and \<open>token\<close> are the
  values of the local variables of these names. The five worker threads are not modelled:
  \<open>order\<close> is the order in which \<^verbatim>\<open>as_completed\<close> yields the futures, as positions in the
  list of submitted futures (any permutation of them can occur), and the events of one
  fetch are kept together, the fetches in that order. The progress bar is left out.
  A run that never returns (the listing loop) is \<open>None\<close>.
\<close>

definition main ::
  "(string \<Rightarrow> response) \<Rightarrow> (pyval \<Rightarrow> string) \<Rightarrow> nat list \<Rightarrow> string \<Rightarrow> string \<Rightarrow> string \<Rightarrow> string \<Rightarrow>
     (event list \<times> (py_error + unit)) option"
where
  "main http_get fmt order instance_type baseUrl userName token =
     (let api_version = (if instance_type = ''cloud'' then ''3'' else ''2'');
          filename = ''jira_filters.csv'';
          tr0 = [Log INFO ''Starting the Jira filter fetching process.'',
                 Log INFO (''Using instance type: '' @ instance_type),
                 Log INFO (''Using baseUrl: '' @ baseUrl),
                 Log INFO (''Using userName: '' @ userName)]
      in
        (case get_jira_filters http_get fmt userName token baseUrl api_version of
           None \<Rightarrow> None
         | Some (tr1, Inl e) \<Rightarrow> Some (tr0 @ tr1, Inl e)
         | Some (tr1, Inr filters) \<Rightarrow>
             if filters = [] then Some (tr0 @ tr1 @ [Log WARNING ''No filters found.''], Inr ())
             else
               (case filter_ids filters of (ids, err) \<Rightarrow>
                  let futures = map (\<lambda>i. fetch_filter_details http_get fmt i baseUrl api_version) ids
                  in
                    (case err of
                       Some e \<Rightarrow> Some (tr0 @ tr1 @ concat (map fst futures), Inl e)
                     | None \<Rightarrow>
                         let completed = map (\<lambda>i. futures ! i) (filter (\<lambda>i. i < length futures) order);
                             tr2 = tr0 @ tr1 @ concat (map fst completed)
                         in
                           (case collect_results (map snd completed) [] of
                              Inl e \<Rightarrow> Some (tr2, Inl e)
                            | Inr filter_details \<Rightarrow>
                                (case save_filters_to_csv fmt filter_details filename of
                                   (tr3, Inl e) \<Rightarrow> Some (tr2 @ tr3, Inl e)
                                 | (tr3, Inr u) \<Rightarrow>
                                     Some (tr2 @ tr3 @ [Print (''Filter details saved to '' @ filename)],
                                           Inr ())))))))"

text \<open>Observations on a trace.\<close>

definition requests :: "event list \<Rightarrow> string list" where
  "requests tr = concat (map (\<lambda>ev. case ev of HttpGet url \<Rightarrow> [url] | _ \<Rightarrow> []) tr)"

definition csv_writes :: "event list \<Rightarrow> (string \<times> (string \<times> pyval) list list) list" where
  "csv_writes tr = concat (map (\<lambda>ev. case ev of ToCsv f rows \<Rightarrow> [(f, rows)] | _ \<Rightarrow> []) tr)"

definition printed :: "event list \<Rightarrow> string list" where
  "printed tr = concat (map (\<lambda>ev. case ev of Print s \<Rightarrow> [s] | _ \<Rightarrow> []) tr)"

definition logged :: "level \<Rightarrow> event list \<Rightarrow> string list" where
  "logged lv tr = concat (map (\<lambda>ev. case ev of Log l s \<Rightarrow> (if l = lv then [s] else []) | _ \<Rightarrow> []) tr)"

section \<open>Vocabulary of the properties\<close>

subsection \<open>Listing pages\<close>

text \<open>The server answers \<open>url\<close> with status 200 and a JSON object whose \<^verbatim>\<open>values\<close> is the
  list \<open>vs\<close> and whose \<^verbatim>\<open>isLast\<close> is \<open>l\<close>.\<close>

definition listing_page :: "(string \<Rightarrow> response) \<Rightarrow> string \<Rightarrow> pyval list \<Rightarrow> pyval \<Rightarrow> bool" where
  "listing_page http_get url vs l =
     (status_code (http_get url) = 200 \<and>
      (case json_body (http_get url) of
         Some (PDict d) \<Rightarrow> map_of d ''values'' = Some (PList vs) \<and> map_of d ''isLast'' = Some l
       | _ \<Rightarrow> False))"

text \<open>The same with no \<^verbatim>\<open>isLast\<close> entry at all.\<close>

definition unflagged_page :: "(string \<Rightarrow> response) \<Rightarrow> string \<Rightarrow> pyval list \<Rightarrow> bool" where
  "unflagged_page http_get url vs =
     (status_code (http_get url) = 200 \<and>
      (case json_body (http_get url) of
         Some (PDict d) \<Rightarrow> map_of d ''values'' = Some (PList vs) \<and> map_of d ''isLast'' = None
       | _ \<Rightarrow> False))"


subsection \<open>Permission grants, as the specification describes them\<close>

text \<open>
  The specification's PermissionGrant: a tagged union over the variants user, group and
  project role, each carrying a name; every other kind of grant is one more variant.
\<close>

datatype grant = UserGrant string | GroupGrant string | ProjectRoleGrant string | OtherGrant

text \<open>What each grant contributes to the formatted text, in the specification's words.\<close>

fun spec_grant_text :: "grant \<Rightarrow> string list" where
  "spec_grant_text (UserGrant n) = [n]"
| "spec_grant_text (GroupGrant n) = [''Group: '' @ n]"
| "spec_grant_text (ProjectRoleGrant n) = [''Project Role: '' @ n]"
| "spec_grant_text OtherGrant = []"

definition spec_format_permissions :: "grant list \<Rightarrow> string" where
  "spec_format_permissions gs = join_strs '', '' (concat (map spec_grant_text gs))"

text \<open>The name inside the nested payload \<open>kvs[outer][inner]\<close>, when it is there and is a string.\<close>

definition payload_name :: "(string \<times> pyval) list \<Rightarrow> string \<Rightarrow> string \<Rightarrow> string option" where
  "payload_name kvs outer inner =
     (case map_of kvs outer of
        Some (PDict p) \<Rightarrow> (case map_of p inner of Some (PStr n) \<Rightarrow> Some n | _ \<Rightarrow> None)
      | _ \<Rightarrow> None)"

text \<open>
  Reading a grant record of the server as a grant. A record of a recognised type must
  carry its payload; a record of another type, or with no type, is \<open>OtherGrant\<close>.
\<close>

definition grant_of :: "pyval \<Rightarrow> grant option" where
  "grant_of perm =
     (case perm of
        PDict kvs \<Rightarrow>
          (case map_of kvs ''type'' of
             Some (PStr t) \<Rightarrow>
               (if t = ''user'' then map_option UserGrant (payload_name kvs ''user'' ''displayName'')
                else if t = ''group'' then map_option GroupGrant (payload_name kvs ''group'' ''name'')
                else if t = ''projectRole''
                  then map_option ProjectRoleGrant (payload_name kvs ''projectRole'' ''name'')
                else Some OtherGrant)
           | _ \<Rightarrow> Some OtherGrant)
      | _ \<Rightarrow> None)"

text \<open>A grant record of a recognised type whose nested payload key is not there: the entry
  \<open>outer\<close> is missing, or it is an object without the entry \<open>inner\<close>.\<close>

definition lacks_payload :: "(string \<times> pyval) list \<Rightarrow> string \<Rightarrow> string \<Rightarrow> bool" where
  "lacks_payload kvs outer inner =
     (case map_of kvs outer of
        None \<Rightarrow> True
      | Some (PDict p) \<Rightarrow> map_of p inner = None
      | Some _ \<Rightarrow> False)"

definition payload_missing :: "pyval \<Rightarrow> bool" where
  "payload_missing perm =
     (case perm of
        PDict kvs \<Rightarrow>
          (map_of kvs ''type'' = Some (PStr ''user'') \<and> lacks_payload kvs ''user'' ''displayName'') \<or>
          (map_of kvs ''type'' = Some (PStr ''group'') \<and> lacks_payload kvs ''group'' ''name'') \<or>
          (map_of kvs ''type'' = Some (PStr ''projectRole'') \<and>
             lacks_payload kvs ''projectRole'' ''name'')
      | _ \<Rightarrow> False)"

subsection \<open>Detail fetches of the listed filters\<close>

text \<open>The identifier of a listed filter, \<^verbatim>\<open>filter['id']\<close>, when it has one.\<close>

definition filter_id :: "pyval \<Rightarrow> pyval" where
  "filter_id flt = (case py_getitem flt ''id'' of Inl e \<Rightarrow> PNone | Inr i \<Rightarrow> i)"

text \<open>The response of the server to the detail request of a listed filter.\<close>

definition detail_response ::
  "(string \<Rightarrow> response) \<Rightarrow> (pyval \<Rightarrow> string) \<Rightarrow> string \<Rightarrow> string \<Rightarrow> pyval \<Rightarrow> response" where
  "detail_response http_get fmt baseUrl api_version flt =
     http_get (detail_url fmt baseUrl api_version (filter_id flt))"

definition fetch_succeeds ::
  "(string \<Rightarrow> response) \<Rightarrow> (pyval \<Rightarrow> string) \<Rightarrow> string \<Rightarrow> string \<Rightarrow> pyval \<Rightarrow> bool" where
  "fetch_succeeds http_get fmt baseUrl api_version flt =
     (status_code (detail_response http_get fmt baseUrl api_version flt) = 200)"

text \<open>The detail record in the body of that response (\<open>PNone\<close> when the body is not JSON).\<close>

definition detail_of ::
  "(string \<Rightarrow> response) \<Rightarrow> (pyval \<Rightarrow> string) \<Rightarrow> string \<Rightarrow> string \<Rightarrow> pyval \<Rightarrow> pyval" where
  "detail_of http_get fmt baseUrl api_version flt =
     (case json_body (detail_response http_get fmt baseUrl api_version flt) of
        None \<Rightarrow> PNone
      | Some d \<Rightarrow> d)"

text \<open>The report row of a detail record, when \<open>filter_row\<close> builds one.\<close>

definition the_row :: "(pyval \<Rightarrow> string) \<Rightarrow> pyval \<Rightarrow> (string \<times> pyval) list" where
  "the_row fmt d = (case filter_row fmt d of Inl e \<Rightarrow> [] | Inr row \<Rightarrow> row)"

text \<open>
  A listed filter whose detail fetch raises nothing: it has an identifier, and the server
  answers its detail request either with a status other than 200, or with status 200 and
  a detail record (not \<^verbatim>\<open>null\<close>) that has all the entries a report row needs.
\<close>

definition reportable ::
  "(string \<Rightarrow> response) \<Rightarrow> (pyval \<Rightarrow> string) \<Rightarrow> string \<Rightarrow> string \<Rightarrow> pyval \<Rightarrow> bool" where
  "reportable http_get fmt baseUrl api_version flt =
     (case py_getitem flt ''id'' of
        Inl e \<Rightarrow> False
      | Inr i \<Rightarrow>
          (if fetch_succeeds http_get fmt baseUrl api_version flt
           then (case json_body (detail_response http_get fmt baseUrl api_version flt) of
                   None \<Rightarrow> False
                 | Some d \<Rightarrow> d \<noteq> PNone \<and> (case filter_row fmt d of Inl e \<Rightarrow> False | Inr row \<Rightarrow> True))
           else True))"

section \<open>Example servers and inputs\<close>

text \<open>A stand-in for the text of lists and dictionaries in the examples.\<close>

definition brief_fmt :: "pyval \<Rightarrow> string" where
  "brief_fmt v = (case v of PList xs \<Rightarrow> ''[...]'' | PDict kvs \<Rightarrow> ''{...}'' | _ \<Rightarrow> [])"

definition not_found :: response where
  "not_found = \<lparr>status_code = 404, text_body = ''Not Found'', json_body = None\<rparr>"

definition listing :: "pyval list \<Rightarrow> bool \<Rightarrow> response" where
  "listing vs flag =
     \<lparr>status_code = 200, text_body = ''{...}'',
      json_body = Some (PDict [(''values'', PList vs), (''isLast'', PBool flag)])\<rparr>"

definition summary :: "string \<Rightarrow> string \<Rightarrow> pyval" where
  "summary i n = PDict [(''id'', PStr i), (''name'', PStr n)]"

text \<open>Two full pages: the second one is flagged as the last.\<close>

definition two_page_server :: "string \<Rightarrow> response" where
  "two_page_server url =
     (if url = ''http://j/rest/api/3/filter/search?startAt=0&maxResults=50''
        then listing [summary ''10000'' ''Mine''] False
      else if url = ''http://j/rest/api/3/filter/search?startAt=50&maxResults=50''
        then listing [summary ''10001'' ''Open bugs''] True
      else not_found)"



text \<open>A good first page, then a page with status 200 whose JSON body is an object with an
  error message and no \<^verbatim>\<open>values\<close>.\<close>

definition no_values_server :: "string \<Rightarrow> response" where
  "no_values_server url =
     (if url = ''http://j/rest/api/3/filter/search?startAt=0&maxResults=50''
        then listing [summary ''10000'' ''Mine''] False
      else \<lparr>status_code = 200, text_body = ''{...}'',
            json_body = Some (PDict [(''errorMessages'', PList [PStr ''busy''])])\<rparr>)"

text \<open>A good first page, then a page with \<^verbatim>\<open>values\<close> and no \<^verbatim>\<open>isLast\<close>.\<close>

definition unflagged_server :: "string \<Rightarrow> response" where
  "unflagged_server url =
     (if url = ''http://j/rest/api/3/filter/search?startAt=0&maxResults=50''
        then listing [summary ''10000'' ''Mine''] False
      else if url = ''http://j/rest/api/3/filter/search?startAt=50&maxResults=50''
        then \<lparr>status_code = 200, text_body = ''{...}'',
              json_body = Some (PDict [(''values'', PList [summary ''10001'' ''Open bugs''])])\<rparr>
      else not_found)"

text \<open>Every page is empty and not flagged as the last.\<close>

definition endless_server :: "string \<Rightarrow> response" where
  "endless_server url = listing [] False"

text \<open>An empty first page that is not flagged as the last, then a last page with one filter.\<close>

definition empty_first_server :: "string \<Rightarrow> response" where
  "empty_first_server url =
     (if url = ''http://j/rest/api/3/filter/search?startAt=0&maxResults=50''
        then listing [] False
      else if url = ''http://j/rest/api/3/filter/search?startAt=50&maxResults=50''
        then listing [summary ''10001'' ''Open bugs''] True
      else not_found)"

text \<open>Grant records: the two of the specification's example, a project role, a grant of a
  type the formatter does not know, and a user grant without its \<^verbatim>\<open>user\<close> entry.\<close>

definition alice_grant :: pyval where
  "alice_grant = PDict [(''type'', PStr ''user''), (''user'', PDict [(''displayName'', PStr ''Alice'')])]"

definition eng_grant :: pyval where
  "eng_grant = PDict [(''type'', PStr ''group''), (''group'', PDict [(''name'', PStr ''Eng'')])]"

definition admins_grant :: pyval where
  "admins_grant = PDict [(''type'', PStr ''projectRole''), (''projectRole'', PDict [(''name'', PStr ''Admins'')])]"

definition unknown_grant :: pyval where
  "unknown_grant = PDict [(''type'', PStr ''unknown'')]"

definition bare_user_grant :: pyval where
  "bare_user_grant = PDict [(''type'', PStr ''user'')]"

text \<open>A detail record without the \<^verbatim>\<open>approximateLastUsed\<close> entry.\<close>

definition detail :: "string \<Rightarrow> string \<Rightarrow> pyval" where
  "detail i n =
     PDict [(''id'', PStr i), (''name'', PStr n),
            (''owner'', PDict [(''displayName'', PStr ''Ann'')]),
            (''sharePermissions'',
               PList [PDict [(''type'', PStr ''group''), (''group'', PDict [(''name'', PStr ''Eng'')])]]),
            (''editPermissions'', PList []),
            (''isWritable'', PBool True)]"

definition found :: "pyval \<Rightarrow> response" where
  "found d = \<lparr>status_code = 200, text_body = ''{...}'', json_body = Some d\<rparr>"

text \<open>One listed filter, whose detail request fails.\<close>

definition lost_detail_server :: "string \<Rightarrow> response" where
  "lost_detail_server url =
     (if url = ''http://j/rest/api/3/filter/search?startAt=0&maxResults=50''
        then listing [summary ''1'' ''A''] True
      else not_found)"

text \<open>Five listed filters; the detail requests of the second and the fourth fail.\<close>

definition five_filters :: "pyval list" where
  "five_filters = [summary ''1'' ''A'', summary ''2'' ''B'', summary ''3'' ''C'',
                   summary ''4'' ''D'', summary ''5'' ''E'']"

definition five_server :: "string \<Rightarrow> response" where
  "five_server url =
     (if url = ''http://j/rest/api/3/filter/search?startAt=0&maxResults=50''
        then listing five_filters True
      else if url = ''http://j/rest/api/3/filter/1'' then found (detail ''1'' ''A'')
      else if url = ''http://j/rest/api/3/filter/3'' then found (detail ''3'' ''C'')
      else if url = ''http://j/rest/api/3/filter/5'' then found (detail ''5'' ''E'')
      else not_found)"

definition report_row :: "string \<Rightarrow> (string \<times> pyval) list" where
  "report_row n =
     [(''Filter name'', PStr n), (''Owner'', PStr ''Ann''),
      (''Share Permissions'', PStr ''Group: Eng''), (''Edit Permissions'', PStr []),
      (''Is Writable'', PBool True), (''Approximate Last Used'', PNone)]"

section \<open>Facts about the operations and the listing loop\<close>

lemma requests_append: "requests (a @ b) = requests a @ requests b"
  by (simp add: requests_def)

lemma logged_append: "logged lv (a @ b) = logged lv a @ logged lv b"
  by (simp add: logged_def)

lemma py_contains_dict: "py_contains k (PDict d) = Inr (map_of d k \<noteq> None)"
  by (simp add: py_contains_def map_of_eq_None_iff)

lemma py_getitem_dict:
  "py_getitem (PDict d) k = (case map_of d k of None \<Rightarrow> Inl (KeyError k) | Some x \<Rightarrow> Inr x)"
  by (simp add: py_getitem_def)

lemma py_get_dict:
  "py_get (PDict d) k dflt = Inr (case map_of d k of None \<Rightarrow> dflt | Some x \<Rightarrow> x)"
  by (simp add: py_get_def)

lemma listing_pageD:
  assumes "listing_page http_get url vs l"
  obtains d where "status_code (http_get url) = 200" "json_body (http_get url) = Some (PDict d)"
    "map_of d ''values'' = Some (PList vs)" "map_of d ''isLast'' = Some l"
  using assms by (auto simp: listing_page_def split: option.splits pyval.splits)

lemma loop_stop:
  "py_truthy l \<Longrightarrow> pagination_loop http_get fmt b v tr fs s l = Some (tr, Inr fs)"
  by (subst pagination_loop.simps) simp

lemma loop_step:
  assumes "\<not> py_truthy l0" and "listing_page http_get (search_url b v s) vs l"
  shows "\<exists>tr'. pagination_loop http_get fmt b v tr fs s l0 =
                pagination_loop http_get fmt b v tr' (fs @ vs) (s + 50) l \<and>
              requests tr' = requests tr @ [search_url b v s] \<and>
              logged ERROR tr' = logged ERROR tr"
proof -
  let ?url = "search_url b v s"
  from assms(2) obtain d where d: "status_code (http_get ?url) = 200"
    "json_body (http_get ?url) = Some (PDict d)"
    "map_of d ''values'' = Some (PList vs)" "map_of d ''isLast'' = Some l"
    by (rule listing_pageD)
  let ?tr' = "tr @ [Log INFO (''Fetching filters from: '' @ ?url), HttpGet ?url,
                    Log DEBUG (''Response status code: '' @ show_nat 200)]
                @ [Log DEBUG (''Response data: '' @ py_str fmt (PDict d))]"
  have "pagination_loop http_get fmt b v tr fs s l0 =
        pagination_loop http_get fmt b v ?tr' (fs @ vs) (s + 50) l"
    by (subst pagination_loop.simps)
       (simp add: assms(1) d Let_def py_contains_dict py_getitem_dict py_get_dict py_iter_def
          max_results_def)
  moreover have "requests ?tr' = requests tr @ [?url]"
    by (simp add: requests_def)
  moreover have "logged ERROR ?tr' = logged ERROR tr"
    by (simp add: logged_def)
  ultimately show ?thesis by blast
qed

lemma loop_pages:
  assumes "\<forall>i<k. listing_page http_get (search_url b v (s + 50 * i)) (vals i) (l i) \<and> \<not> py_truthy (l i)"
    and "\<not> py_truthy l0"
  shows "\<exists>tr' l'. \<not> py_truthy l' \<and>
           pagination_loop http_get fmt b v tr fs s l0 =
             pagination_loop http_get fmt b v tr' (fs @ concat (map vals [0..<k])) (s + 50 * k) l' \<and>
           requests tr' = requests tr @ map (\<lambda>i. search_url b v (s + 50 * i)) [0..<k] \<and>
           logged ERROR tr' = logged ERROR tr"
  using assms
proof (induction k)
  case 0
  then show ?case by auto
next
  case (Suc k)
  from Suc.prems have pre: "\<forall>i<k. listing_page http_get (search_url b v (s + 50 * i)) (vals i) (l i) \<and> \<not> py_truthy (l i)"
    by simp
  from Suc.IH[OF pre Suc.prems(2)] obtain tr1 l1 where
    l1: "\<not> py_truthy l1" and
    eq1: "pagination_loop http_get fmt b v tr fs s l0 =
          pagination_loop http_get fmt b v tr1 (fs @ concat (map vals [0..<k])) (s + 50 * k) l1" and
    rq1: "requests tr1 = requests tr @ map (\<lambda>i. search_url b v (s + 50 * i)) [0..<k]" and
    lg1: "logged ERROR tr1 = logged ERROR tr"
    by blast
  from Suc.prems(1) have pk: "listing_page http_get (search_url b v (s + 50 * k)) (vals k) (l k)"
    and fk: "\<not> py_truthy (l k)" by simp_all
  from loop_step[OF l1 pk, of fmt tr1 "fs @ concat (map vals [0..<k])"] obtain tr2 where
    eq2: "pagination_loop http_get fmt b v tr1 (fs @ concat (map vals [0..<k])) (s + 50 * k) l1 =
          pagination_loop http_get fmt b v tr2 ((fs @ concat (map vals [0..<k])) @ vals k) (s + 50 * k + 50) (l k)" and
    rq2: "requests tr2 = requests tr1 @ [search_url b v (s + 50 * k)]" and
    lg2: "logged ERROR tr2 = logged ERROR tr1"
    by blast
  have "pagination_loop http_get fmt b v tr fs s l0 =
        pagination_loop http_get fmt b v tr2 (fs @ concat (map vals [0..<Suc k])) (s + 50 * Suc k) (l k)"
    using eq1 eq2 by (simp add: ac_simps)
  moreover have "requests tr2 = requests tr @ map (\<lambda>i. search_url b v (s + 50 * i)) [0..<Suc k]"
    using rq1 rq2 by simp
  moreover have "logged ERROR tr2 = logged ERROR tr"
    using lg1 lg2 by simp
  ultimately show ?case using fk by blast
qed

lemma falsy_False: "\<not> py_truthy (PBool False)"
  by (simp add: py_truthy_def)

lemma endless_never_returns:
  assumes "pagination_loop http_get fmt b v tr fs s l = Some y"
  shows "http_get = endless_server \<longrightarrow> py_truthy l"
  apply (rule pagination_loop.raw_induct
    [where P = "\<lambda>h f b v tr fs s l y. h = endless_server \<longrightarrow> py_truthy l", OF _ assms])
  apply (intro impI)
  apply (rule ccontr)
  apply (simp add: endless_server_def listing_def Let_def py_contains_dict py_getitem_dict py_get_dict py_iter_def)
  apply (use falsy_False in blast)
  done




lemma unflagged_pageD:
  assumes "unflagged_page http_get url vs"
  obtains d where "status_code (http_get url) = 200" "json_body (http_get url) = Some (PDict d)"
    "map_of d ''values'' = Some (PList vs)" "map_of d ''isLast'' = None"
  using assms by (auto simp: unflagged_page_def split: option.splits pyval.splits)

lemma loop_unflagged:
  assumes "\<not> py_truthy l0" and "unflagged_page http_get (search_url b v s) vs"
  shows "\<exists>tr'. pagination_loop http_get fmt b v tr fs s l0 = Some (tr', Inr (fs @ vs)) \<and>
              requests tr' = requests tr @ [search_url b v s] \<and>
              logged ERROR tr' = logged ERROR tr"
proof -
  let ?url = "search_url b v s"
  from assms(2) obtain d where d: "status_code (http_get ?url) = 200"
    "json_body (http_get ?url) = Some (PDict d)"
    "map_of d ''values'' = Some (PList vs)" "map_of d ''isLast'' = None"
    by (rule unflagged_pageD)
  let ?tr' = "tr @ [Log INFO (''Fetching filters from: '' @ ?url), HttpGet ?url,
                    Log DEBUG (''Response status code: '' @ show_nat 200)]
                @ [Log DEBUG (''Response data: '' @ py_str fmt (PDict d))]"
  have "pagination_loop http_get fmt b v tr fs s l0 =
        pagination_loop http_get fmt b v ?tr' (fs @ vs) (s + 50) (PBool True)"
    by (subst pagination_loop.simps)
       (simp add: assms(1) d Let_def py_contains_dict py_getitem_dict py_get_dict py_iter_def
          max_results_def)
  also have "\<dots> = Some (?tr', Inr (fs @ vs))"
    by (rule loop_stop) (simp add: py_truthy_def)
  finally have "pagination_loop http_get fmt b v tr fs s l0 = Some (?tr', Inr (fs @ vs))" .
  moreover have "requests ?tr' = requests tr @ [?url]"
    by (simp add: requests_def)
  moreover have "logged ERROR ?tr' = logged ERROR tr"
    by (simp add: logged_def)
  ultimately show ?thesis by blast
qed

lemma url0: "search_url ''http://j'' ''3'' 0 = ''http://j/rest/api/3/filter/search?startAt=0&maxResults=50''"
  by code_simp

lemma url50: "search_url ''http://j'' ''3'' 50 = ''http://j/rest/api/3/filter/search?startAt=50&maxResults=50''"
  by code_simp


section \<open>Properties of the Filter Lister\<close>

text \<open>
  C1. For every well-formed sequence of listing responses (pages \<open>0\<close> to \<open>k\<close>, each a 200
  response with a \<^verbatim>\<open>values\<close> list and an \<^verbatim>\<open>isLast\<close> flag that is true on page \<open>k\<close> and on
  no earlier page), \<^verbatim>\<open>get_jira_filters\<close> returns the concatenation of the pages' values in
  page order, and its requests are exactly those of the offsets \<open>0, 50, \<dots>, 50 k\<close>: it
  stops at the first page flagged as the last.
\<close>

theorem get_jira_filters_concatenates_pages:
  assumes "\<forall>i\<le>k. listing_page http_get (search_url baseUrl api_version (50 * i)) (vals i) (PBool (i = k))"
  shows "\<exists>tr. get_jira_filters http_get fmt userName token baseUrl api_version =
                Some (tr, Inr (concat (map vals [0..<Suc k]))) \<and>
              requests tr = map (\<lambda>i. search_url baseUrl api_version (50 * i)) [0..<Suc k]"
proof -
  have pre: "\<forall>i<k. listing_page http_get (search_url baseUrl api_version (0 + 50 * i)) (vals i) (PBool False)
               \<and> \<not> py_truthy (PBool False)"
  proof (intro allI impI conjI)
    fix i assume "i < k"
    then have "i \<le> k" by simp
    from assms[rule_format, OF this]
    have "listing_page http_get (search_url baseUrl api_version (50 * i)) (vals i) (PBool (i = k))" .
    with \<open>i < k\<close> show "listing_page http_get (search_url baseUrl api_version (0 + 50 * i)) (vals i) (PBool False)"
      by simp
  qed (rule falsy_False)
  from loop_pages[OF pre falsy_False, of fmt "[]" "[]"] obtain tr1 l1 where
    l1: "\<not> py_truthy l1" and
    eq1: "pagination_loop http_get fmt baseUrl api_version [] [] 0 (PBool False) =
          pagination_loop http_get fmt baseUrl api_version tr1 ([] @ concat (map vals [0..<k])) (0 + 50 * k) l1" and
    rq1: "requests tr1 = requests [] @ map (\<lambda>i. search_url baseUrl api_version (0 + 50 * i)) [0..<k]"
    by blast
  from assms have pk: "listing_page http_get (search_url baseUrl api_version (0 + 50 * k)) (vals k) (PBool True)"
    using assms[rule_format, of k] by simp
  from loop_step[OF l1 pk, of fmt tr1 "[] @ concat (map vals [0..<k])"] obtain tr2 where
    eq2: "pagination_loop http_get fmt baseUrl api_version tr1 ([] @ concat (map vals [0..<k])) (0 + 50 * k) l1 =
          pagination_loop http_get fmt baseUrl api_version tr2 (([] @ concat (map vals [0..<k])) @ vals k) (0 + 50 * k + 50) (PBool True)" and
    rq2: "requests tr2 = requests tr1 @ [search_url baseUrl api_version (0 + 50 * k)]"
    by blast
  have "pagination_loop http_get fmt baseUrl api_version tr2 (([] @ concat (map vals [0..<k])) @ vals k) (0 + 50 * k + 50) (PBool True)
        = Some (tr2, Inr (([] @ concat (map vals [0..<k])) @ vals k))"
    by (rule loop_stop) (simp add: py_truthy_def)
  with eq1 eq2 have "get_jira_filters http_get fmt userName token baseUrl api_version =
      Some (tr2, Inr (concat (map vals [0..<Suc k])))"
    by (simp add: get_jira_filters_def)
  moreover have "requests tr2 = map (\<lambda>i. search_url baseUrl api_version (50 * i)) [0..<Suc k]"
    using rq1 rq2 by (simp add: requests_def)
  ultimately show ?thesis by blast
qed


theorem get_jira_filters_concatenates_pages_witness:
  "\<exists>tr. get_jira_filters two_page_server brief_fmt ''u'' ''t'' ''http://j'' ''3'' =
           Some (tr, Inr [summary ''10000'' ''Mine'', summary ''10001'' ''Open bugs'']) \<and>
         requests tr = [''http://j/rest/api/3/filter/search?startAt=0&maxResults=50'',
                        ''http://j/rest/api/3/filter/search?startAt=50&maxResults=50'']"
proof -
  let ?vals = "\<lambda>i::nat. if i = 0 then [summary ''10000'' ''Mine''] else [summary ''10001'' ''Open bugs'']"
  have p0: "listing_page two_page_server (search_url ''http://j'' ''3'' (50 * 0)) (?vals 0) (PBool (0 = (1::nat)))"
    by (simp add: url0 listing_page_def two_page_server_def listing_def)
  have p1: "listing_page two_page_server (search_url ''http://j'' ''3'' (50 * 1)) (?vals 1) (PBool ((1::nat) = 1))"
    by (simp add: url50 listing_page_def two_page_server_def listing_def)
  have h: "\<forall>i\<le>1. listing_page two_page_server (search_url ''http://j'' ''3'' (50 * i)) (?vals i) (PBool (i = 1))"
  proof (intro allI impI)
    fix i :: nat assume "i \<le> 1"
    then have "i = 0 \<or> i = 1" by arith
    then show "listing_page two_page_server (search_url ''http://j'' ''3'' (50 * i)) (?vals i) (PBool (i = 1))"
      using p0 p1 by auto
  qed
  have m: "map ?vals [0..<Suc 1] = [[summary ''10000'' ''Mine''], [summary ''10001'' ''Open bugs'']]"
    by (simp add: upt_rec)
  have u: "map (\<lambda>i. search_url ''http://j'' ''3'' (50 * i)) [0..<Suc 1] =
       [''http://j/rest/api/3/filter/search?startAt=0&maxResults=50'',
        ''http://j/rest/api/3/filter/search?startAt=50&maxResults=50'']"
    using url0 url50 by (simp add: upt_rec)
  show ?thesis
    using get_jira_filters_concatenates_pages[OF h, of brief_fmt "''u''" "''t''"]
    unfolding m u by simp
qed



text \<open>The same for a 200 response whose body is an object without \<^verbatim>\<open>values\<close>.\<close>

lemma object_without_values_ends_pagination:
  "map_option (\<lambda>run. (requests (fst run), logged ERROR (fst run), snd run))
     (get_jira_filters no_values_server brief_fmt ''u'' ''t'' ''http://j'' ''3'') =
   Some ([''http://j/rest/api/3/filter/search?startAt=0&maxResults=50'',
          ''http://j/rest/api/3/filter/search?startAt=50&maxResults=50''],
         [''Unexpected response format: {...}''],
         Inr [summary ''10000'' ''Mine''])"
  by code_simp


text \<open>
  C9. A 200 response with a \<^verbatim>\<open>values\<close> list and no \<^verbatim>\<open>isLast\<close> entry is treated as the last
  page: its values are part of the result, no further page is requested, nothing is logged
  at level ERROR and nothing is raised.
\<close>

theorem missing_is_last_ends_pagination:
  assumes "\<forall>i<k. listing_page http_get (search_url baseUrl api_version (50 * i)) (vals i) (l i) \<and>
                 \<not> py_truthy (l i)"
    and "unflagged_page http_get (search_url baseUrl api_version (50 * k)) (vals k)"
  shows "\<exists>tr. get_jira_filters http_get fmt userName token baseUrl api_version =
                Some (tr, Inr (concat (map vals [0..<Suc k]))) \<and>
              requests tr = map (\<lambda>i. search_url baseUrl api_version (50 * i)) [0..<Suc k] \<and>
              logged ERROR tr = []"
proof -
  have pre: "\<forall>i<k. listing_page http_get (search_url baseUrl api_version (0 + 50 * i)) (vals i) (l i)
               \<and> \<not> py_truthy (l i)"
    using assms(1) by simp
  from loop_pages[OF pre falsy_False, of fmt "[]" "[]"] obtain tr1 l1 where
    l1: "\<not> py_truthy l1" and
    eq1: "pagination_loop http_get fmt baseUrl api_version [] [] 0 (PBool False) =
          pagination_loop http_get fmt baseUrl api_version tr1 ([] @ concat (map vals [0..<k])) (0 + 50 * k) l1" and
    rq1: "requests tr1 = requests [] @ map (\<lambda>i. search_url baseUrl api_version (0 + 50 * i)) [0..<k]" and
    lg1: "logged ERROR tr1 = logged ERROR []"
    by blast
  from assms(2) have pk: "unflagged_page http_get (search_url baseUrl api_version (0 + 50 * k)) (vals k)"
    by simp
  from loop_unflagged[OF l1 pk, of fmt tr1 "[] @ concat (map vals [0..<k])"] obtain tr2 where
    eq2: "pagination_loop http_get fmt baseUrl api_version tr1 ([] @ concat (map vals [0..<k])) (0 + 50 * k) l1 =
          Some (tr2, Inr (([] @ concat (map vals [0..<k])) @ vals k))" and
    rq2: "requests tr2 = requests tr1 @ [search_url baseUrl api_version (0 + 50 * k)]" and
    lg2: "logged ERROR tr2 = logged ERROR tr1"
    by blast
  from eq1 eq2 have "get_jira_filters http_get fmt userName token baseUrl api_version =
      Some (tr2, Inr (concat (map vals [0..<Suc k])))"
    by (simp add: get_jira_filters_def)
  moreover have "requests tr2 = map (\<lambda>i. search_url baseUrl api_version (50 * i)) [0..<Suc k]"
    using rq1 rq2 by (simp add: requests_def)
  moreover have "logged ERROR tr2 = []"
    using lg1 lg2 by (simp add: logged_def)
  ultimately show ?thesis by blast
qed

theorem missing_is_last_ends_pagination_witness:
  "\<exists>tr. get_jira_filters unflagged_server brief_fmt ''u'' ''t'' ''http://j'' ''3'' =
           Some (tr, Inr [summary ''10000'' ''Mine'', summary ''10001'' ''Open bugs'']) \<and>
         requests tr = [''http://j/rest/api/3/filter/search?startAt=0&maxResults=50'',
                        ''http://j/rest/api/3/filter/search?startAt=50&maxResults=50''] \<and>
         logged ERROR tr = []"
proof -
  let ?vals = "\<lambda>i::nat. if i = 0 then [summary ''10000'' ''Mine''] else [summary ''10001'' ''Open bugs'']"
  let ?l = "\<lambda>i::nat. PBool False"
  have p0: "listing_page unflagged_server (search_url ''http://j'' ''3'' (50 * 0)) (?vals 0) (?l 0)"
    by (simp add: url0 listing_page_def unflagged_server_def listing_def)
  have h: "\<forall>i<1. listing_page unflagged_server (search_url ''http://j'' ''3'' (50 * i)) (?vals i) (?l i)
             \<and> \<not> py_truthy (?l i)"
    using p0 falsy_False by simp
  have f: "unflagged_page unflagged_server (search_url ''http://j'' ''3'' (50 * 1)) (?vals 1)"
    by (simp add: url50 unflagged_page_def unflagged_server_def)
  have m: "map ?vals [0..<Suc 1] = [[summary ''10000'' ''Mine''], [summary ''10001'' ''Open bugs'']]"
    by (simp add: upt_rec)
  have u: "map (\<lambda>i. search_url ''http://j'' ''3'' (50 * i)) [0..<Suc 1] =
       [''http://j/rest/api/3/filter/search?startAt=0&maxResults=50'',
        ''http://j/rest/api/3/filter/search?startAt=50&maxResults=50'']"
    using url0 url50 by (simp add: upt_rec)
  show ?thesis
    using missing_is_last_ends_pagination[OF h f, of brief_fmt "''u''" "''t''"]
    unfolding m u by simp
qed

text \<open>
  C4, as the code has it. The loop ends at the first page whose \<^verbatim>\<open>isLast\<close> value is true:
  every page before it is requested and its values, empty or not, are added, so a page
  with an empty \<^verbatim>\<open>values\<close> list and a false \<^verbatim>\<open>isLast\<close> does not end the loop.
\<close>

theorem pagination_ends_at_first_is_last:
  assumes "\<forall>i<k. listing_page http_get (search_url baseUrl api_version (50 * i)) (vals i) (l i) \<and>
                 \<not> py_truthy (l i)"
    and "listing_page http_get (search_url baseUrl api_version (50 * k)) (vals k) (l k)"
    and "py_truthy (l k)"
  shows "\<exists>tr. get_jira_filters http_get fmt userName token baseUrl api_version =
                Some (tr, Inr (concat (map vals [0..<Suc k]))) \<and>
              requests tr = map (\<lambda>i. search_url baseUrl api_version (50 * i)) [0..<Suc k]"
proof -
  have pre: "\<forall>i<k. listing_page http_get (search_url baseUrl api_version (0 + 50 * i)) (vals i) (l i)
               \<and> \<not> py_truthy (l i)"
    using assms(1) by simp
  from loop_pages[OF pre falsy_False, of fmt "[]" "[]"] obtain tr1 l1 where
    l1: "\<not> py_truthy l1" and
    eq1: "pagination_loop http_get fmt baseUrl api_version [] [] 0 (PBool False) =
          pagination_loop http_get fmt baseUrl api_version tr1 ([] @ concat (map vals [0..<k])) (0 + 50 * k) l1" and
    rq1: "requests tr1 = requests [] @ map (\<lambda>i. search_url baseUrl api_version (0 + 50 * i)) [0..<k]"
    by blast
  from assms(2) have pk: "listing_page http_get (search_url baseUrl api_version (0 + 50 * k)) (vals k) (l k)"
    by simp
  from loop_step[OF l1 pk, of fmt tr1 "[] @ concat (map vals [0..<k])"] obtain tr2 where
    eq2: "pagination_loop http_get fmt baseUrl api_version tr1 ([] @ concat (map vals [0..<k])) (0 + 50 * k) l1 =
          pagination_loop http_get fmt baseUrl api_version tr2 (([] @ concat (map vals [0..<k])) @ vals k) (0 + 50 * k + 50) (l k)" and
    rq2: "requests tr2 = requests tr1 @ [search_url baseUrl api_version (0 + 50 * k)]"
    by blast
  have "pagination_loop http_get fmt baseUrl api_version tr2 (([] @ concat (map vals [0..<k])) @ vals k) (0 + 50 * k + 50) (l k)
        = Some (tr2, Inr (([] @ concat (map vals [0..<k])) @ vals k))"
    by (rule loop_stop) (rule assms(3))
  with eq1 eq2 have "get_jira_filters http_get fmt userName token baseUrl api_version =
      Some (tr2, Inr (concat (map vals [0..<Suc k])))"
    by (simp add: get_jira_filters_def)
  moreover have "requests tr2 = map (\<lambda>i. search_url baseUrl api_version (50 * i)) [0..<Suc k]"
    using rq1 rq2 by (simp add: requests_def)
  ultimately show ?thesis by blast
qed

theorem pagination_ends_at_first_is_last_witness:
  "\<exists>tr. get_jira_filters empty_first_server brief_fmt ''u'' ''t'' ''http://j'' ''3'' =
           Some (tr, Inr [summary ''10001'' ''Open bugs'']) \<and>
         requests tr = [''http://j/rest/api/3/filter/search?startAt=0&maxResults=50'',
                        ''http://j/rest/api/3/filter/search?startAt=50&maxResults=50'']"
proof -
  let ?vals = "\<lambda>i::nat. if i = 0 then [] else [summary ''10001'' ''Open bugs'']"
  let ?l = "\<lambda>i::nat. PBool (i = 1)"
  have p0: "listing_page empty_first_server (search_url ''http://j'' ''3'' (50 * 0)) (?vals 0) (?l 0)"
    by (simp add: url0 listing_page_def empty_first_server_def listing_def)
  have h: "\<forall>i<1. listing_page empty_first_server (search_url ''http://j'' ''3'' (50 * i)) (?vals i) (?l i)
             \<and> \<not> py_truthy (?l i)"
    using p0 falsy_False by simp
  have p1: "listing_page empty_first_server (search_url ''http://j'' ''3'' (50 * 1)) (?vals 1) (?l 1)"
    by (simp add: url50 listing_page_def empty_first_server_def listing_def)
  have t: "py_truthy (?l 1)"
    by (simp add: py_truthy_def)
  have m: "map ?vals [0..<Suc 1] = [[], [summary ''10001'' ''Open bugs'']]"
    by (simp add: upt_rec)
  have u: "map (\<lambda>i. search_url ''http://j'' ''3'' (50 * i)) [0..<Suc 1] =
       [''http://j/rest/api/3/filter/search?startAt=0&maxResults=50'',
        ''http://j/rest/api/3/filter/search?startAt=50&maxResults=50'']"
    using url0 url50 by (simp add: upt_rec)
  show ?thesis
    using pagination_ends_at_first_is_last[OF h p1 t, of brief_fmt "''u''" "''t''"]
    unfolding m u by simp
qed

text \<open>
  C4, as the claim states it, fails: on a server whose every page has an empty \<^verbatim>\<open>values\<close>
  list and \<^verbatim>\<open>isLast\<close> false, the loop never returns.
\<close>

theorem empty_page_does_not_end_pagination:
  "get_jira_filters endless_server brief_fmt ''u'' ''t'' ''http://j'' ''3'' = None"
proof (cases "get_jira_filters endless_server brief_fmt ''u'' ''t'' ''http://j'' ''3''")
  case None then show ?thesis .
next
  case (Some y)
  then have "py_truthy (PBool False)"
    using endless_never_returns[of endless_server _ _ _ "[]" "[]" 0 "PBool False" y]
    by (simp add: get_jira_filters_def)
  then show ?thesis by (simp add: py_truthy_def)
qed

section \<open>Properties of the Permission Formatter\<close>

lemma bind_err_Inr: "bind_err (Inr x) f = f x"
  by (simp add: bind_err_def)

lemma bind_err_Inl: "bind_err (Inl e) f = Inl e"
  by (simp add: bind_err_def)

lemma payload_nameD:
  assumes "payload_name kvs outer inner = Some n"
  shows "\<exists>p. map_of kvs outer = Some (PDict p) \<and> map_of p inner = Some (PStr n)"
  using assms by (auto simp: payload_name_def split: option.splits pyval.splits)

lemma format_permission_grant:
  assumes "grant_of perm = Some g"
  shows "format_permission fmt perm = Inr (map PStr (spec_grant_text g))"
proof (cases perm)
  case (PDict kvs)
  show ?thesis
  proof (cases "map_of kvs ''type'' = Some (PStr ''user'')")
    case True
    with assms PDict obtain n where g: "g = UserGrant n" and n: "payload_name kvs ''user'' ''displayName'' = Some n"
      by (auto simp: grant_of_def)
    from payload_nameD[OF n] show ?thesis
      by (auto simp: format_permission_def PDict True g py_get_dict py_getitem_dict bind_err_Inr)
  next
    case nu: False
    show ?thesis
    proof (cases "map_of kvs ''type'' = Some (PStr ''group'')")
      case True
      with assms PDict obtain n where g: "g = GroupGrant n" and n: "payload_name kvs ''group'' ''name'' = Some n"
        by (auto simp: grant_of_def)
      from payload_nameD[OF n] show ?thesis
        by (auto simp: format_permission_def PDict True g py_get_dict py_getitem_dict bind_err_Inr py_str_def)
    next
      case ng: False
      show ?thesis
      proof (cases "map_of kvs ''type'' = Some (PStr ''projectRole'')")
        case True
        with assms PDict obtain n where g: "g = ProjectRoleGrant n" and n: "payload_name kvs ''projectRole'' ''name'' = Some n"
          by (auto simp: grant_of_def)
        from payload_nameD[OF n] show ?thesis
          by (auto simp: format_permission_def PDict True g py_get_dict py_getitem_dict bind_err_Inr py_str_def)
      next
        case np: False
        with nu ng assms PDict have g: "g = OtherGrant"
          by (auto simp: grant_of_def split: option.splits pyval.splits if_splits)
        from nu ng np show ?thesis
          by (auto simp: format_permission_def PDict g py_get_dict bind_err_Inr split: option.splits)
      qed
    qed
  qed
qed (use assms in \<open>simp_all add: grant_of_def\<close>)

lemma format_loop_grants:
  assumes "map grant_of perms = map Some gs"
  shows "format_loop fmt perms acc = Inr (acc @ map PStr (concat (map spec_grant_text gs)))"
  using assms
proof (induction perms arbitrary: gs acc)
  case Nil
  then show ?case by simp
next
  case (Cons perm perms)
  then obtain g gs' where gs: "gs = g # gs'" and g: "grant_of perm = Some g"
    and rest: "map grant_of perms = map Some gs'"
    by (cases gs) auto
  show ?case
    by (simp add: gs format_permission_grant[OF g] bind_err_Inr Cons.IH[OF rest])
qed

lemma str_items_strs: "str_items (map PStr ss) = Some ss"
  by (induction ss) simp_all

lemma no_text_for_other_grants:
  "list_all (\<lambda>g. g = OtherGrant) gs \<Longrightarrow> concat (map spec_grant_text gs) = []"
  by (induction gs) simp_all

text \<open>
  C2. For every list of grant records that read as grants (a record of a recognised type
  carries its payload with a string name), \<^verbatim>\<open>format_permissions\<close> returns the text the
  specification describes: the contributions of the grants in input order, joined by a
  comma and a space, a grant of another or of no type contributing nothing. In particular
  a list with only such grants, and the empty list, give the empty string.
\<close>

theorem format_permissions_joins_grants:
  assumes "map grant_of perms = map Some gs"
  shows "format_permissions fmt (PList perms) = Inr (spec_format_permissions gs) \<and>
         (list_all (\<lambda>g. g = OtherGrant) gs \<longrightarrow> format_permissions fmt (PList perms) = Inr [])"
proof -
  have "format_permissions fmt (PList perms) = Inr (spec_format_permissions gs)"
    by (simp add: format_permissions_def py_iter_def bind_err_Inr format_loop_grants[OF assms]
        py_join_def str_items_strs spec_format_permissions_def)
  then show ?thesis
    by (simp add: spec_format_permissions_def no_text_for_other_grants)
qed

theorem format_permissions_joins_grants_witness:
  "format_permissions brief_fmt (PList [alice_grant, unknown_grant, eng_grant, admins_grant]) =
     Inr ''Alice, Group: Eng, Project Role: Admins''"
proof -
  have h: "map grant_of [alice_grant, unknown_grant, eng_grant, admins_grant] =
           map Some [UserGrant ''Alice'', OtherGrant, GroupGrant ''Eng'', ProjectRoleGrant ''Admins'']"
    by (simp add: grant_of_def payload_name_def alice_grant_def unknown_grant_def eng_grant_def admins_grant_def)
  show ?thesis
    using format_permissions_joins_grants[OF h, of brief_fmt]
    by (simp add: spec_format_permissions_def)
qed

lemma lacks_payload_raises:
  assumes "lacks_payload kvs outer inner"
  shows "\<exists>e. bind_err (py_getitem (PDict kvs) outer) (\<lambda>u. bind_err (py_getitem u inner) f) = Inl e"
proof (cases "map_of kvs outer")
  case None
  then show ?thesis by (simp add: py_getitem_dict bind_err_Inl)
next
  case (Some u)
  with assms obtain p where u: "u = PDict p" and p: "map_of p inner = None"
    by (cases u) (simp_all add: lacks_payload_def)
  show ?thesis
    by (simp add: Some u p py_getitem_dict bind_err_Inr bind_err_Inl)
qed

lemma format_permission_payload_missing:
  assumes "payload_missing perm"
  shows "\<exists>e. format_permission fmt perm = Inl e"
proof (cases perm)
  case (PDict kvs)
  with assms consider
      "map_of kvs ''type'' = Some (PStr ''user'')" "lacks_payload kvs ''user'' ''displayName''"
    | "map_of kvs ''type'' = Some (PStr ''group'')" "lacks_payload kvs ''group'' ''name''"
    | "map_of kvs ''type'' = Some (PStr ''projectRole'')" "lacks_payload kvs ''projectRole'' ''name''"
    by (auto simp: payload_missing_def)
  then show ?thesis
  proof cases
    case 1
    from lacks_payload_raises[OF 1(2)] show ?thesis
      by (simp add: format_permission_def PDict py_get_dict bind_err_Inr 1(1))
  next
    case 2
    from lacks_payload_raises[OF 2(2)] show ?thesis
      by (simp add: format_permission_def PDict py_get_dict bind_err_Inr 2(1))
  next
    case 3
    from lacks_payload_raises[OF 3(2)] show ?thesis
      by (simp add: format_permission_def PDict py_get_dict bind_err_Inr 3(1))
  qed
qed (use assms in \<open>simp_all add: payload_missing_def\<close>)

lemma format_loop_fails:
  assumes "perm \<in> set perms" and "\<exists>e. format_permission fmt perm = Inl e"
  shows "\<exists>e. format_loop fmt perms acc = Inl e"
  using assms
proof (induction perms arbitrary: acc)
  case Nil
  then show ?case by simp
next
  case (Cons p perms)
  show ?case
  proof (cases "format_permission fmt p")
    case (Inl e)
    then show ?thesis by (simp add: bind_err_Inl)
  next
    case (Inr items)
    with Cons.prems have "perm \<in> set perms" by auto
    from Cons.IH[OF this Cons.prems(2)] show ?thesis
      by (simp add: Inr bind_err_Inr)
  qed
qed

text \<open>
  C10. \<^verbatim>\<open>format_permissions\<close> raises an error whenever some grant of the list has a
  recognised type and lacks the nested payload key of that type; it returns a string only
  on lists without such a grant.
\<close>

theorem format_permissions_raises_without_payload:
  assumes "perm \<in> set perms" and "payload_missing perm"
  shows "\<exists>e. format_permissions fmt (PList perms) = Inl e"
proof -
  from format_loop_fails[OF assms(1) format_permission_payload_missing[OF assms(2)]]
  obtain e where "format_loop fmt perms [] = Inl e" by blast
  then show ?thesis
    by (simp add: format_permissions_def py_iter_def bind_err_Inr bind_err_Inl)
qed

theorem format_permissions_raises_without_payload_witness:
  "\<exists>e. format_permissions brief_fmt (PList [alice_grant, bare_user_grant]) = Inl e"
proof -
  have m: "bare_user_grant \<in> set [alice_grant, bare_user_grant]" by simp
  have p: "payload_missing bare_user_grant"
    by (simp add: payload_missing_def lacks_payload_def bare_user_grant_def)
  show ?thesis
    using format_permissions_raises_without_payload[OF m p, of brief_fmt] by simp
qed

lemma bare_user_key_error:
  "format_permissions brief_fmt (PList [alice_grant, bare_user_grant]) = Inl (KeyError ''user'')"
  by code_simp

section \<open>Properties of the Report Writer\<close>

lemma bind_err_eq_Inr: "bind_err r f = Inr y \<longleftrightarrow> (\<exists>x. r = Inr x \<and> f x = Inr y)"
  by (cases r) (simp_all add: bind_err_def)

lemma csv_writes_append: "csv_writes (a @ b) = csv_writes a @ csv_writes b"
  by (simp add: csv_writes_def)

lemma filter_row_last_used:
  assumes "filter_row fmt (PDict kvs) = Inr row"
  shows "map_of row ''Approximate Last Used'' =
           Some (case map_of kvs ''approximateLastUsed'' of None \<Rightarrow> PNone | Some x \<Rightarrow> x)"
  using assms
  by (auto simp: filter_row_def bind_err_eq_Inr py_get_dict)

lemma csv_record_cell:
  "map_of row k = Some v \<Longrightarrow> map_of (csv_record fmt row) k = Some (csv_cell fmt v)"
  by (induction row) (auto simp: csv_record_def)

lemma build_rows_keeps:
  "build_rows fmt ds acc = Inr data \<Longrightarrow> set acc \<subseteq> set data"
proof (induction ds arbitrary: acc)
  case Nil
  then show ?case by simp
next
  case (Cons d ds)
  show ?case
  proof (cases "d = PNone")
    case True
    with Cons show ?thesis by simp
  next
    case False
    with Cons.prems obtain row where "build_rows fmt ds (acc @ [row]) = Inr data"
      by (auto simp: bind_err_eq_Inr)
    from Cons.IH[OF this] show ?thesis by simp
  qed
qed

lemma build_rows_has_row:
  assumes "build_rows fmt ds acc = Inr data" and "d \<in> set ds" and "d \<noteq> PNone"
  shows "\<exists>row \<in> set data. filter_row fmt d = Inr row"
  using assms
proof (induction ds arbitrary: acc)
  case Nil
  then show ?case by simp
next
  case (Cons x ds)
  show ?case
  proof (cases "x = PNone")
    case True
    with Cons.prems have "build_rows fmt ds acc = Inr data" and "d \<in> set ds" by auto
    from Cons.IH[OF this Cons.prems(3)] show ?thesis .
  next
    case False
    with Cons.prems(1) obtain row where row: "filter_row fmt x = Inr row"
      and rest: "build_rows fmt ds (acc @ [row]) = Inr data"
      by (auto simp: bind_err_eq_Inr)
    show ?thesis
    proof (cases "d = x")
      case True
      from build_rows_keeps[OF rest] have "row \<in> set data" by auto
      with row True show ?thesis by blast
    next
      case False
      with Cons.prems(2) have "d \<in> set ds" by simp
      from Cons.IH[OF rest this Cons.prems(3)] show ?thesis .
    qed
  qed
qed

lemma detail_row: "filter_row brief_fmt (detail i n) = Inr (report_row n)"
  by code_simp

text \<open>
  C8. When the report is written, every filter detail record without the
  \<^verbatim>\<open>approximateLastUsed\<close> entry has its row in the written table, the cell
  "Approximate Last Used" of that row holds the missing value \<^verbatim>\<open>None\<close> (not a string), and
  the text of that cell in the output file is empty: neither "None" nor "null".
\<close>

theorem absent_last_used_is_empty_cell:
  assumes "snd (save_filters_to_csv fmt filter_details filename) = Inr ()"
    and "PDict kvs \<in> set filter_details"
    and "map_of kvs ''approximateLastUsed'' = None"
  shows "\<exists>rows row. csv_writes (fst (save_filters_to_csv fmt filter_details filename)) = [(filename, rows)] \<and>
           row \<in> set rows \<and> filter_row fmt (PDict kvs) = Inr row \<and>
           map_of row ''Approximate Last Used'' = Some PNone \<and>
           map_of (csv_record fmt row) ''Approximate Last Used'' = Some []"
proof -
  from assms(2) have ne: "filter_details \<noteq> []" by auto
  with assms(1) obtain data where data: "build_rows fmt filter_details [] = Inr data"
    by (cases "build_rows fmt filter_details []") (simp_all add: save_filters_to_csv_def)
  from build_rows_has_row[OF data assms(2)] obtain row where
    row: "row \<in> set data" "filter_row fmt (PDict kvs) = Inr row" by auto
  from filter_row_last_used[OF row(2)] assms(3)
  have cell: "map_of row ''Approximate Last Used'' = Some PNone" by simp
  from csv_record_cell[OF cell]
  have empty: "map_of (csv_record fmt row) ''Approximate Last Used'' = Some []"
    by (simp add: csv_cell_def)
  have "csv_writes (fst (save_filters_to_csv fmt filter_details filename)) = [(filename, data)]"
    by (simp add: save_filters_to_csv_def ne data csv_writes_def)
  with row cell empty show ?thesis by blast
qed

theorem absent_last_used_is_empty_cell_witness:
  "\<exists>rows row. csv_writes (fst (save_filters_to_csv brief_fmt [PNone, detail ''1'' ''A''] ''jira_filters.csv''))
             = [(''jira_filters.csv'', rows)] \<and>
           row \<in> set rows \<and> filter_row brief_fmt (detail ''1'' ''A'') = Inr row \<and>
           map_of row ''Approximate Last Used'' = Some PNone \<and>
           map_of (csv_record brief_fmt row) ''Approximate Last Used'' = Some []"
proof -
  let ?kvs = "[(''id'', PStr ''1''), (''name'', PStr ''A''),
            (''owner'', PDict [(''displayName'', PStr ''Ann'')]),
            (''sharePermissions'',
               PList [PDict [(''type'', PStr ''group''), (''group'', PDict [(''name'', PStr ''Eng'')])]]),
            (''editPermissions'', PList []),
            (''isWritable'', PBool True)]"
  have d: "detail ''1'' ''A'' = PDict ?kvs" by (simp add: detail_def)
  have h1: "snd (save_filters_to_csv brief_fmt [PNone, detail ''1'' ''A''] ''jira_filters.csv'') = Inr ()"
    by code_simp
  have h2: "PDict ?kvs \<in> set [PNone, detail ''1'' ''A'']" by (simp add: d)
  have h3: "map_of ?kvs ''approximateLastUsed'' = None" by simp
  show ?thesis
    using absent_last_used_is_empty_cell[OF h1 h2 h3] unfolding d by simp
qed

text \<open>
  C7 does not hold of the code. The emptiness test of \<^verbatim>\<open>save_filters_to_csv\<close> comes before
  the loop that skips the \<^verbatim>\<open>None\<close> entries and is not repeated after it: for the list
  \<^verbatim>\<open>[None]\<close> no warning is logged and an empty table is written to the file.
\<close>

theorem only_null_details_still_written:
  "save_filters_to_csv fmt [PNone] ''jira_filters.csv'' =
     ([Log INFO ''Saving data to CSV: jira_filters.csv'', ToCsv ''jira_filters.csv'' []], Inr ())"
  by (simp add: save_filters_to_csv_def)

section \<open>Properties of the orchestration\<close>

text \<open>
  C5 does not hold of the code. When a filter is listed and its detail request fails, the
  detail list is empty, \<^verbatim>\<open>save_filters_to_csv\<close> logs its warning and writes nothing, and
  \<^verbatim>\<open>main\<close> still prints the confirmation line that names the output file.
\<close>

theorem confirmation_printed_without_file:
  "map_option (\<lambda>run. (printed (fst run), csv_writes (fst run), logged WARNING (fst run), snd run))
     (main lost_detail_server brief_fmt [0] ''cloud'' ''http://j'' ''u'' ''t'') =
   Some ([''Filter details saved to jira_filters.csv''], [], [''No filter details to save.''], Inr ())"
  by code_simp

subsection \<open>The rows of the report\<close>

lemma loop_no_writes:
  assumes "pagination_loop http_get fmt b v tr fs s l = Some y"
  shows "csv_writes (fst y) = csv_writes tr"
  apply (rule pagination_loop.raw_induct
    [where P = "\<lambda>h f b v tr fs s l y. csv_writes (fst y) = csv_writes tr", OF _ assms])
  apply (simp add: Let_def split: if_splits option.splits sum.splits)
       apply (auto simp: csv_writes_def)
  done

lemma get_jira_filters_no_writes:
  "get_jira_filters http_get fmt u t b v = Some (tr, r) \<Longrightarrow> csv_writes tr = []"
  using loop_no_writes[of http_get fmt b v "[]" "[]" 0 "PBool False" "(tr, r)"]
  by (simp add: get_jira_filters_def csv_writes_def)

lemma fetch_no_writes:
  "csv_writes (fst (fetch_filter_details http_get fmt i b v)) = []"
  by (simp add: fetch_filter_details_def Let_def csv_writes_def split: option.splits)

lemma fetch_failed:
  assumes "status_code (http_get (detail_url fmt b v i)) \<noteq> 200"
  shows "snd (fetch_filter_details http_get fmt i b v) = Inr PNone \<and>
         logged ERROR (fst (fetch_filter_details http_get fmt i b v)) =
           [''Failed to fetch filter details: '' @ text_body (http_get (detail_url fmt b v i))]"
  using assms by (simp add: fetch_filter_details_def Let_def logged_def)

lemma reportable_id:
  "reportable http_get fmt b v flt \<Longrightarrow> py_getitem flt ''id'' = Inr (filter_id flt)"
  by (auto simp: reportable_def filter_id_def split: sum.splits)

lemma filter_ids_reportable:
  "list_all (reportable http_get fmt b v) flts \<Longrightarrow> filter_ids flts = (map filter_id flts, None)"
proof (induction flts)
  case Nil
  then show ?case by simp
next
  case (Cons flt flts)
  then have r: "reportable http_get fmt b v flt"
    and rest: "filter_ids flts = (map filter_id flts, None)"
    by simp_all
  from reportable_id[OF r] rest show ?case by simp
qed

lemma reportable_fetch:
  assumes "reportable http_get fmt b v flt"
  shows "snd (fetch_filter_details http_get fmt (filter_id flt) b v) =
           Inr (if fetch_succeeds http_get fmt b v flt then detail_of http_get fmt b v flt else PNone)"
  using assms
  by (auto simp: reportable_def fetch_succeeds_def detail_response_def detail_of_def
      fetch_filter_details_def Let_def split: sum.splits option.splits if_splits)

lemma reportable_row:
  assumes "reportable http_get fmt b v flt" and "fetch_succeeds http_get fmt b v flt"
  shows "detail_of http_get fmt b v flt \<noteq> PNone \<and>
         filter_row fmt (detail_of http_get fmt b v flt) = Inr (the_row fmt (detail_of http_get fmt b v flt))"
  using assms
  by (auto simp: reportable_def detail_of_def the_row_def split: sum.splits option.splits if_splits)

lemma collect_reportable:
  assumes "list_all (reportable http_get fmt b v) xs"
  shows "collect_results (map (\<lambda>flt. snd (fetch_filter_details http_get fmt (filter_id flt) b v)) xs) acc =
           Inr (acc @ map (detail_of http_get fmt b v) (filter (fetch_succeeds http_get fmt b v) xs))"
  using assms
proof (induction xs arbitrary: acc)
  case Nil
  then show ?case by simp
next
  case (Cons x xs)
  then have x: "reportable http_get fmt b v x" and xs: "list_all (reportable http_get fmt b v) xs"
    by simp_all
  show ?case
  proof (cases "fetch_succeeds http_get fmt b v x")
    case True
    with reportable_row[OF x] have "detail_of http_get fmt b v x \<noteq> PNone" by simp
    then show ?thesis
      by (simp add: reportable_fetch[OF x] True Cons.IH[OF xs])
  next
    case False
    then show ?thesis
      by (simp add: reportable_fetch[OF x] Cons.IH[OF xs])
  qed
qed

lemma build_rows_reportable:
  assumes "list_all (reportable http_get fmt b v) xs"
  shows "build_rows fmt (map (detail_of http_get fmt b v) (filter (fetch_succeeds http_get fmt b v) xs)) acc =
           Inr (acc @ map (\<lambda>flt. the_row fmt (detail_of http_get fmt b v flt))
                        (filter (fetch_succeeds http_get fmt b v) xs))"
  using assms
proof (induction xs arbitrary: acc)
  case Nil
  then show ?case by simp
next
  case (Cons x xs)
  then have x: "reportable http_get fmt b v x" and xs: "list_all (reportable http_get fmt b v) xs"
    by simp_all
  show ?case
  proof (cases "fetch_succeeds http_get fmt b v x")
    case True
    from reportable_row[OF x True] show ?thesis
      by (simp add: True bind_err_Inr Cons.IH[OF xs])
  next
    case False
    then show ?thesis by (simp add: Cons.IH[OF xs])
  qed
qed

lemma order_in_range:
  assumes "mset order = mset [0..<n]"
  shows "filter (\<lambda>i. i < n) order = order"
proof -
  from assms have "set order = set [0..<n]" by (rule mset_eq_setD)
  then have "\<forall>i \<in> set order. i < n" by auto
  then show ?thesis by (simp add: filter_id_conv)
qed

lemma permuted_filters:
  assumes "mset order = mset [0..<length xs]"
  shows "mset (map ((!) xs) order) = mset xs"
proof -
  have "mset (map ((!) xs) order) = image_mset ((!) xs) (mset order)" by simp
  also have "\<dots> = image_mset ((!) xs) (mset [0..<length xs])" by (simp add: assms)
  also have "\<dots> = mset (map ((!) xs) [0..<length xs])" by simp
  also have "\<dots> = mset xs" by (simp add: map_nth)
  finally show ?thesis .
qed

lemma csv_writes_Nil: "csv_writes [] = []"
  by (simp add: csv_writes_def)

lemma csv_writes_concat_fetches:
  "csv_writes (concat (map fst (map (\<lambda>flt. fetch_filter_details http_get fmt (filter_id flt) b v) xs))) = []"
  by (induction xs) (simp_all add: csv_writes_append fetch_no_writes csv_writes_Nil)

text \<open>
  C6. A detail fetch whose response status is not 200 logs the failure at level ERROR and
  returns \<^verbatim>\<open>None\<close> instead of raising, for every filter identifier. In a run of \<^verbatim>\<open>main\<close>
  where the listing gave the filters and no detail fetch raises, whatever the order in
  which the fetches complete, the report is written once with exactly the rows of the
  filters whose fetch succeeded, in completion order (and is not written when none
  succeeded): there are as many rows as successful fetches and no row for a failed one.
  The example has five filters of which two fail, and a report of three rows.
\<close>

theorem failed_fetches_left_out_of_report:
  assumes v: "api_version = (if instance_type = ''cloud'' then ''3'' else ''2'')"
    and listed: "map_option snd (get_jira_filters http_get fmt userName token baseUrl api_version) =
                   Some (Inr filters)"
    and nonempty: "filters \<noteq> []"
    and rep: "list_all (reportable http_get fmt baseUrl api_version) filters"
    and perm: "mset order = mset [0..<length filters]"
    and ok: "ok = filter (fetch_succeeds http_get fmt baseUrl api_version) (map ((!) filters) order)"
  shows "(\<forall>i. status_code (http_get (detail_url fmt baseUrl api_version i)) \<noteq> 200 \<longrightarrow>
            snd (fetch_filter_details http_get fmt i baseUrl api_version) = Inr PNone \<and>
            logged ERROR (fst (fetch_filter_details http_get fmt i baseUrl api_version)) =
              [''Failed to fetch filter details: '' @
                 text_body (http_get (detail_url fmt baseUrl api_version i))]) \<and>
         (\<exists>tr. main http_get fmt order instance_type baseUrl userName token = Some (tr, Inr ()) \<and>
            csv_writes tr =
              (if ok = [] then []
               else [(''jira_filters.csv'',
                      map (\<lambda>flt. the_row fmt (detail_of http_get fmt baseUrl api_version flt)) ok)])) \<and>
         mset ok = mset (filter (fetch_succeeds http_get fmt baseUrl api_version) filters) \<and>
         length ok = length (filter (fetch_succeeds http_get fmt baseUrl api_version) filters)"
proof -
  let ?succ = "fetch_succeeds http_get fmt baseUrl api_version"
  let ?g = "\<lambda>flt. fetch_filter_details http_get fmt (filter_id flt) baseUrl api_version"
  let ?xs = "map ((!) filters) order"
  let ?rows = "map (\<lambda>flt. the_row fmt (detail_of http_get fmt baseUrl api_version flt)) ok"
  let ?details = "map (detail_of http_get fmt baseUrl api_version) ok"
  from listed obtain tr1 where
    run: "get_jira_filters http_get fmt userName token baseUrl api_version = Some (tr1, Inr filters)"
    by (cases "get_jira_filters http_get fmt userName token baseUrl api_version") auto
  have w1: "csv_writes tr1 = []"
    using run by (rule get_jira_filters_no_writes)
  have ids: "filter_ids filters = (map filter_id filters, None)"
    using rep by (rule filter_ids_reportable)
  have inrange: "filter (\<lambda>i. i < length filters) order = order"
    using perm by (rule order_in_range)
  have mxs: "mset ?xs = mset filters"
    using perm by (rule permuted_filters)
  then have sxs: "set ?xs = set filters"
    by (rule mset_eq_setD)
  have repxs: "list_all (reportable http_get fmt baseUrl api_version) ?xs"
    using rep sxs unfolding list_all_iff by blast
  have bound: "\<forall>i \<in> set order. i < length filters"
    using mset_eq_setD[OF perm] by auto
  have completed: "map (\<lambda>i. map (\<lambda>i. fetch_filter_details http_get fmt i baseUrl api_version)
                              (map filter_id filters) ! i) order = map ?g ?xs"
    using bound by simp
  have collected: "collect_results (map snd (map ?g ?xs)) [] = Inr ?details"
    using collect_reportable[OF repxs, of "[]"] by (simp add: ok comp_def)
  have built: "build_rows fmt ?details [] = Inr ?rows"
    using build_rows_reportable[OF repxs, of "[]"] by (simp add: ok)
  let ?ta = "[Log INFO ''Starting the Jira filter fetching process.'',
               Log INFO (''Using instance type: '' @ instance_type),
               Log INFO (''Using baseUrl: '' @ baseUrl),
               Log INFO (''Using userName: '' @ userName)]"
  let ?tb = "?ta @ tr1 @ concat (map fst (map ?g ?xs))"
  let ?tc = "if ok = [] then [Log WARNING ''No filter details to save.'']
             else [Log INFO (''Saving data to CSV: '' @ ''jira_filters.csv''),
                   ToCsv ''jira_filters.csv'' ?rows]"
  let ?whole = "?tb @ ?tc @ [Print (''Filter details saved to '' @ ''jira_filters.csv'')]"
  have saved: "save_filters_to_csv fmt ?details ''jira_filters.csv'' = (?tc, Inr ())"
    by (simp add: save_filters_to_csv_def built)
  have w3: "csv_writes ?tc = (if ok = [] then [] else [(''jira_filters.csv'', ?rows)])"
    by (simp add: csv_writes_def)
  have w0: "csv_writes ?ta = []"
    by (simp add: csv_writes_def)
  have w2: "csv_writes ?tb = []"
    by (simp only: csv_writes_append w0 w1 csv_writes_concat_fetches) simp
  have m: "main http_get fmt order instance_type baseUrl userName token = Some (?whole, Inr ())"
    unfolding main_def Let_def v [symmetric]
    by (simp only: run nonempty ids inrange completed collected saved length_map
          option.case prod.case sum.case if_False append_assoc)
  have wp: "csv_writes [Print (''Filter details saved to '' @ ''jira_filters.csv'')] = []"
    by (simp add: csv_writes_def)
  have a: "csv_writes ?whole =
             csv_writes ?tb @ csv_writes (?tc @ [Print (''Filter details saved to '' @ ''jira_filters.csv'')])"
    by (rule csv_writes_append)
  have b: "csv_writes (?tc @ [Print (''Filter details saved to '' @ ''jira_filters.csv'')]) =
             csv_writes ?tc @ csv_writes [Print (''Filter details saved to '' @ ''jira_filters.csv'')]"
    by (rule csv_writes_append)
  have "csv_writes ?whole = (if ok = [] then [] else [(''jira_filters.csv'', ?rows)])"
    by (simp only: a b w2 w3 wp append_Nil append_Nil2)
  with m have main_part: "\<exists>tr. main http_get fmt order instance_type baseUrl userName token = Some (tr, Inr ()) \<and>
            csv_writes tr = (if ok = [] then [] else [(''jira_filters.csv'', ?rows)])"
    by blast
  have "mset ok = filter_mset ?succ (mset ?xs)"
    unfolding ok by (rule mset_filter)
  also have "\<dots> = filter_mset ?succ (mset filters)"
    by (simp only: mxs)
  also have "\<dots> = mset (filter ?succ filters)"
    by (rule mset_filter [symmetric])
  finally have mok: "mset ok = mset (filter ?succ filters)" .
  have lok: "length ok = length (filter ?succ filters)"
    using mok by (rule mset_eq_length)
  from fetch_failed main_part mok lok show ?thesis by blast
qed

theorem failed_fetches_left_out_of_report_witness:
  "snd (fetch_filter_details five_server brief_fmt (PStr ''2'') ''http://j'' ''3'') = Inr PNone \<and>
   (\<exists>tr. main five_server brief_fmt [2, 0, 4, 1, 3] ''cloud'' ''http://j'' ''u'' ''t'' = Some (tr, Inr ()) \<and>
      csv_writes tr =
        [(''jira_filters.csv'', [report_row ''C'', report_row ''A'', report_row ''E''])]) \<and>
   length (filter (fetch_succeeds five_server brief_fmt ''http://j'' ''3'') five_filters) = 3"
proof -
  let ?ok = "[summary ''3'' ''C'', summary ''1'' ''A'', summary ''5'' ''E'']"
  have v: "''3'' = (if ''cloud'' = ''cloud'' then ''3'' else ''2'')"
    by simp
  have listed: "map_option snd (get_jira_filters five_server brief_fmt ''u'' ''t'' ''http://j'' ''3'') =
                  Some (Inr five_filters)"
    by code_simp
  have nonempty: "five_filters \<noteq> []"
    by (simp add: five_filters_def)
  have rep: "list_all (reportable five_server brief_fmt ''http://j'' ''3'') five_filters"
    by code_simp
  have u: "[0..<length five_filters] = [0, 1, 2, 3, 4]"
    by code_simp
  have perm: "mset [2, 0, 4, 1, 3] = mset [0..<length five_filters]"
    unfolding u by (simp add: add_mset_commute)
  have ok: "?ok = filter (fetch_succeeds five_server brief_fmt ''http://j'' ''3'')
                    (map ((!) five_filters) [2, 0, 4, 1, 3])"
    by code_simp
  have rows: "map (\<lambda>flt. the_row brief_fmt (detail_of five_server brief_fmt ''http://j'' ''3'' flt)) ?ok =
                [report_row ''C'', report_row ''A'', report_row ''E'']"
    by code_simp
  have failed: "status_code (five_server (detail_url brief_fmt ''http://j'' ''3'' (PStr ''2''))) \<noteq> 200"
    by code_simp
  show ?thesis
    using failed_fetches_left_out_of_report[OF v listed nonempty rep perm ok] failed
    unfolding rows by simp
qed

end
